theory Spec2Isabelle
  imports
    Complex_Main
    "HOL-Library.Word"
    "HOL-Library.Char_ord"
    "HOL-Library.List_Lexorder"
    "HOL-Library.AList"
    "HOL-Library.Log_Nat"
begin

unbundle bit_operations_syntax

section \<open>The Bloom-filter response cache of \<^verbatim>\<open>bloom-cache.py\<close>\<close>

text \<open>
  The class \<^verbatim>\<open>BloomCache\<close> keeps a bit array (the Bloom filter), a dictionary (the
  in-process cache) and a Redis client. Its methods are embedded as functions on a record
  of the object's attributes. Exceptions are values of \<open>py_error\<close>; the Redis server is
  outside the program, so each method takes what the server answers as an argument and
  returns the Redis calls it issued.
\<close>

subsection \<open>Library functions the class calls\<close>

type_synonym u32 = "32 word"

datatype py_error = ZeroDivisionError | IndexError | ValueError | OverflowError | RedisError

definition rotl32 :: "u32 \<Rightarrow> nat \<Rightarrow> u32" where
  "rotl32 x c = push_bit c x OR drop_bit (32 - c) x"

text \<open>
  \<^verbatim>\<open>hashlib.md5(prompt.encode()).hexdigest()\<close>: MD5 (RFC 1321) of the bytes of the
  prompt, printed as 32 lower-case hexadecimal digits. A \<open>string\<close> is the byte sequence
  that \<^verbatim>\<open>prompt.encode()\<close> yields.
\<close>

definition md5_K :: "u32 list" where
  "md5_K =
    [0xd76aa478, 0xe8c7b756, 0x242070db, 0xc1bdceee,
     0xf57c0faf, 0x4787c62a, 0xa8304613, 0xfd469501,
     0x698098d8, 0x8b44f7af, 0xffff5bb1, 0x895cd7be,
     0x6b901122, 0xfd987193, 0xa679438e, 0x49b40821,
     0xf61e2562, 0xc040b340, 0x265e5a51, 0xe9b6c7aa,
     0xd62f105d, 0x02441453, 0xd8a1e681, 0xe7d3fbc8,
     0x21e1cde6, 0xc33707d6, 0xf4d50d87, 0x455a14ed,
     0xa9e3e905, 0xfcefa3f8, 0x676f02d9, 0x8d2a4c8a,
     0xfffa3942, 0x8771f681, 0x6d9d6122, 0xfde5380c,
     0xa4beea44, 0x4bdecfa9, 0xf6bb4b60, 0xbebfbc70,
     0x289b7ec6, 0xeaa127fa, 0xd4ef3085, 0x04881d05,
     0xd9d4d039, 0xe6db99e5, 0x1fa27cf8, 0xc4ac5665,
     0xf4292244, 0x432aff97, 0xab9423a7, 0xfc93a039,
     0x655b59c3, 0x8f0ccc92, 0xffeff47d, 0x85845dd1,
     0x6fa87e4f, 0xfe2ce6e0, 0xa3014314, 0x4e0811a1,
     0xf7537e82, 0xbd3af235, 0x2ad7d2bb, 0xeb86d391]"

definition md5_S :: "nat list" where
  "md5_S =
    [7, 12, 17, 22, 7, 12, 17, 22, 7, 12, 17, 22, 7, 12, 17, 22,
     5, 9, 14, 20, 5, 9, 14, 20, 5, 9, 14, 20, 5, 9, 14, 20,
     4, 11, 16, 23, 4, 11, 16, 23, 4, 11, 16, 23, 4, 11, 16, 23,
     6, 10, 15, 21, 6, 10, 15, 21, 6, 10, 15, 21, 6, 10, 15, 21]"

fun words_le :: "u32 list \<Rightarrow> u32 list" where
  "words_le (a # b # c # d # rest) =
     (a OR push_bit 8 b OR push_bit 16 c OR push_bit 24 d) # words_le rest"
| "words_le _ = []"

definition length_bytes_le :: "64 word \<Rightarrow> u32 list" where
  "length_bytes_le n = map (\<lambda>i. ucast (drop_bit (8 * i) n AND 0xff)) [0..<8]"

definition md5_pad :: "string \<Rightarrow> u32 list" where
  "md5_pad msg =
     map of_char msg @ [0x80] @ replicate ((119 - length msg mod 64) mod 64) 0
       @ length_bytes_le (of_nat (8 * length msg))"

definition md5_step ::
  "u32 list \<Rightarrow> u32 \<times> u32 \<times> u32 \<times> u32 \<Rightarrow> nat \<Rightarrow> u32 \<times> u32 \<times> u32 \<times> u32" where
  "md5_step M st i =
     (case st of (A, B, C, D) \<Rightarrow>
        let (F, g) =
              (if i < 16 then ((B AND C) OR (NOT B AND D), i)
               else if i < 32 then ((D AND B) OR (NOT D AND C), (5 * i + 1) mod 16)
               else if i < 48 then (B XOR C XOR D, (3 * i + 5) mod 16)
               else (C XOR (B OR NOT D), (7 * i) mod 16));
            F' = F + A + md5_K ! i + M ! g
        in (D, B + rotl32 F' (md5_S ! i), B, C))"

definition md5_block ::
  "u32 \<times> u32 \<times> u32 \<times> u32 \<Rightarrow> u32 list \<Rightarrow> u32 \<times> u32 \<times> u32 \<times> u32" where
  "md5_block h M =
     (case h of (a0, b0, c0, d0) \<Rightarrow>
        case fold (\<lambda>i st. md5_step M st i) [0..<64] h of
          (A, B, C, D) \<Rightarrow> (a0 + A, b0 + B, c0 + C, d0 + D))"

fun md5_blocks ::
  "nat \<Rightarrow> u32 \<times> u32 \<times> u32 \<times> u32 \<Rightarrow> u32 list \<Rightarrow> u32 \<times> u32 \<times> u32 \<times> u32" where
  "md5_blocks 0 h ws = h"
| "md5_blocks (Suc n) h ws = md5_blocks n (md5_block h (take 16 ws)) (drop 16 ws)"

definition hex_digit :: "nat \<Rightarrow> char" where
  "hex_digit d = ''0123456789abcdef'' ! d"

definition hex_byte :: "nat \<Rightarrow> string" where
  "hex_byte b = [hex_digit (b div 16), hex_digit (b mod 16)]"

definition hex_word_le :: "u32 \<Rightarrow> string" where
  "hex_word_le w = concat (map (\<lambda>i. hex_byte (unat (drop_bit (8 * i) w AND 0xff))) [0..<4])"

definition md5_hexdigest :: "string \<Rightarrow> string" where
  "md5_hexdigest msg =
     (let ws = words_le (md5_pad msg) in
      case md5_blocks (length ws div 16) (0x67452301, 0xefcdab89, 0x98badcfe, 0x10325476) ws of
        (a, b, c, d) \<Rightarrow> hex_word_le a @ hex_word_le b @ hex_word_le c @ hex_word_le d)"

text \<open>
  \<^verbatim>\<open>mmh3.hash(item, seed)\<close>: MurmurHash3 (x86, 32 bits) of the bytes of \<open>item\<close>, read
  as a signed 32-bit integer.
\<close>

definition mmh3_mix :: "u32 \<Rightarrow> u32" where
  "mmh3_mix k = rotl32 (k * 0xcc9e2d51) 15 * 0x1b873593"

fun mmh3_body :: "u32 \<Rightarrow> u32 list \<Rightarrow> u32" where
  "mmh3_body h (a # b # c # d # rest) =
     mmh3_body
       (rotl32 (h XOR mmh3_mix (a OR push_bit 8 b OR push_bit 16 c OR push_bit 24 d)) 13 * 5
          + 0xe6546b64) rest"
| "mmh3_body h [a, b, c] = h XOR mmh3_mix (push_bit 16 c XOR push_bit 8 b XOR a)"
| "mmh3_body h [a, b] = h XOR mmh3_mix (push_bit 8 b XOR a)"
| "mmh3_body h [a] = h XOR mmh3_mix a"
| "mmh3_body h [] = h"

definition fmix32 :: "u32 \<Rightarrow> u32" where
  "fmix32 h =
     (let h1 = h XOR drop_bit 16 h; h2 = h1 * 0x85ebca6b;
          h3 = h2 XOR drop_bit 13 h2; h4 = h3 * 0xc2b2ae35
      in h4 XOR drop_bit 16 h4)"

definition mmh3_hash :: "string \<Rightarrow> int \<Rightarrow> int" where
  "mmh3_hash item seed =
     sint (fmix32 (mmh3_body (word_of_int seed) (map of_char item) XOR of_nat (length item)))"

subsection \<open>The object and its filter\<close>

text \<open>
  The attributes of a \<^verbatim>\<open>BloomCache\<close>. The attribute \<^verbatim>\<open>size\<close> is \<open>size_bits\<close> and the
  method \<^verbatim>\<open>set\<close> is \<open>set_op\<close> below, since \<open>size\<close> and \<open>set\<close> are constants of the
  logic; \<^verbatim>\<open>bloom\<close> is the bit array and \<^verbatim>\<open>local_cache\<close> the dictionary, in insertion
  order.
\<close>

record bloom_cache =
  capacity :: int
  size_bits :: int
  hash_count :: int
  bloom :: "bool list"
  local_cache :: "(string \<times> string) list"
  max_local :: int

text \<open>
  \<^verbatim>\<open>_get_hash_positions\<close>: \<^verbatim>\<open>range(self.hash_count)\<close> is empty when the count is not
  positive; \<^verbatim>\<open>%\<close> raises on a zero modulus and otherwise takes the sign of the modulus,
  as \<open>mod\<close> on \<open>int\<close> does.
\<close>

definition get_hash_positions :: "bloom_cache \<Rightarrow> string \<Rightarrow> py_error + int list" where
  "get_hash_positions s item =
     (if 0 < hash_count s \<and> size_bits s = 0 then Inl ZeroDivisionError
      else Inr (map (\<lambda>i. mmh3_hash item (int i) mod size_bits s) [0..<nat (hash_count s)]))"

text \<open>Indexing a sequence of length \<open>n\<close>: a negative index counts from the end.\<close>

definition py_index :: "nat \<Rightarrow> int \<Rightarrow> nat option" where
  "py_index n pos =
     (if 0 \<le> pos \<and> pos < int n then Some (nat pos)
      else if - int n \<le> pos \<and> pos < 0 then Some (nat (int n + pos))
      else None)"

text \<open>\<^verbatim>\<open>all(self.bloom[pos] for pos in positions)\<close> reads the bits lazily and stops at the
  first unset one.\<close>

fun all_set :: "bool list \<Rightarrow> int list \<Rightarrow> py_error + bool" where
  "all_set bits [] = Inr True"
| "all_set bits (pos # rest) =
     (case py_index (length bits) pos of
        None \<Rightarrow> Inl IndexError
      | Some j \<Rightarrow> if bits ! j then all_set bits rest else Inr False)"

definition might_exist :: "bloom_cache \<Rightarrow> string \<Rightarrow> py_error + bool" where
  "might_exist s key =
     (case get_hash_positions s key of
        Inl e \<Rightarrow> Inl e
      | Inr positions \<Rightarrow> all_set (bloom s) positions)"

text \<open>\<^verbatim>\<open>for pos in positions: self.bloom[pos] = 1\<close>; an exception leaves the bits set so
  far.\<close>

fun set_bits :: "bool list \<Rightarrow> int list \<Rightarrow> (py_error + unit) \<times> bool list" where
  "set_bits bits [] = (Inr (), bits)"
| "set_bits bits (pos # rest) =
     (case py_index (length bits) pos of
        None \<Rightarrow> (Inl IndexError, bits)
      | Some j \<Rightarrow> set_bits (bits[j := True]) rest)"

definition add :: "bloom_cache \<Rightarrow> string \<Rightarrow> (py_error + unit) \<times> bloom_cache" where
  "add s key =
     (case get_hash_positions s key of
        Inl e \<Rightarrow> (Inl e, s)
      | Inr positions \<Rightarrow>
          (case set_bits (bloom s) positions of
             (r, bits) \<Rightarrow> (r, s\<lparr>bloom := bits\<rparr>)))"

text \<open>A run of \<^verbatim>\<open>add\<close> calls, each on the state the previous one left.\<close>

fun add_all :: "bloom_cache \<Rightarrow> string list \<Rightarrow> bloom_cache" where
  "add_all s [] = s"
| "add_all s (k # ks) = add_all (snd (add s k)) ks"

subsection \<open>Sizing the filter\<close>

text \<open>
  The constructor sizes the filter with Python's built-in \<^verbatim>\<open>hash\<close>. For a number equal to
  the fraction \<open>m / n\<close> in lowest terms, \<^verbatim>\<open>hash\<close> is \<open>m\<close> times the inverse of \<open>n\<close>
  modulo the prime \<open>2^61 - 1\<close> (the language reference, \<^emph>\<open>Hashing of numeric types\<close>).
  A Python \<^verbatim>\<open>float\<close> is modelled by the rational number it stands for.
\<close>

definition hash_modulus :: int where
  "hash_modulus = 2 ^ 61 - 1"

definition hash_inf :: int where
  "hash_inf = 314159"

function pow_mod :: "int \<Rightarrow> int \<Rightarrow> int \<Rightarrow> int" where
  "pow_mod b e m =
     (if e \<le> 0 then 1 mod m
      else let h = pow_mod b (e div 2) m; sq = h * h mod m
           in if odd e then sq * b mod m else sq)"
  by pat_completeness auto
termination
  by (relation "measure (\<lambda>(b, e, m). nat e)") auto

declare pow_mod.simps [simp del]

definition hash_fraction :: "int \<Rightarrow> int \<Rightarrow> int" where
  "hash_fraction m n =
     (let P = hash_modulus;
          hash_value = (if n mod P = 0 then hash_inf
                        else (\<bar>m\<bar> mod P) * pow_mod n (P - 2) P mod P);
          hash_value = (if m < 0 then - hash_value else hash_value)
      in if hash_value = - 1 then - 2 else hash_value)"

definition hash_float :: "rat \<Rightarrow> int" where
  "hash_float x = (case quotient_of x of (m, n) \<Rightarrow> hash_fraction m n)"

definition hash_int :: "int \<Rightarrow> int" where
  "hash_int i = hash_fraction i 1"

text \<open>
  \<^verbatim>\<open>a / b\<close> on integers is the quotient rounded to the nearest double (ties to even);
  \<^verbatim>\<open>int(x)\<close> truncates towards zero. A product that overflows is infinite in Python and
  \<^verbatim>\<open>int\<close> of it raises \<^verbatim>\<open>OverflowError\<close>, which is the error \<open>round_double\<close> gives.
\<close>

definition pow2 :: "int \<Rightarrow> rat" where
  "pow2 k = (if 0 \<le> k then of_int (2 ^ nat k) else Fract 1 (2 ^ nat (- k)))"

definition ilog2 :: "rat \<Rightarrow> int" where
  "ilog2 x =
     (case quotient_of \<bar>x\<bar> of (a, b) \<Rightarrow>
        let d = bitlen a - bitlen b in if pow2 d \<le> \<bar>x\<bar> then d else d - 1)"

definition round_half_even :: "rat \<Rightarrow> int" where
  "round_half_even x =
     (let f = \<lfloor>x\<rfloor>; d = x - of_int f
      in if d < 1 / 2 then f else if 1 / 2 < d then f + 1 else if even f then f else f + 1)"

definition round_double :: "rat \<Rightarrow> py_error + rat" where
  "round_double x =
     (if x = 0 then Inr 0
      else let e = max (ilog2 x) (- 1022);
               r = of_int (round_half_even (x * pow2 (52 - e))) * pow2 (e - 52)
           in if pow2 1024 \<le> \<bar>r\<bar> then Inl OverflowError else Inr r)"

definition true_div :: "int \<Rightarrow> int \<Rightarrow> py_error + rat" where
  "true_div a b = (if b = 0 then Inl ZeroDivisionError else round_double (of_int a / of_int b))"

definition py_int :: "rat \<Rightarrow> int" where
  "py_int x = (if 0 \<le> x then \<lfloor>x\<rfloor> else \<lceil>x\<rceil>)"

text \<open>The doubles that the literals \<^verbatim>\<open>0.6185\<close> and \<^verbatim>\<open>0.001\<close> denote.\<close>

definition float_0_6185 :: rat where
  "float_0_6185 = Fract 696369092382163 (2 ^ 50)"

definition float_0_001 :: rat where
  "float_0_001 = Fract 1152921504606847 (2 ^ 60)"

definition optimal_size :: "int \<Rightarrow> rat \<Rightarrow> py_error + int" where
  "optimal_size n p =
     (case true_div (- (n * hash_float p)) (hash_float float_0_6185) of
        Inl e \<Rightarrow> Inl e
      | Inr q \<Rightarrow> Inr (py_int q))"

definition optimal_hash_count :: "int \<Rightarrow> int \<Rightarrow> py_error + int" where
  "optimal_hash_count m n =
     (case true_div m n of
        Inl e \<Rightarrow> Inl e
      | Inr q \<Rightarrow>
          (case round_double (q * of_int (hash_int 2)) of
             Inl e \<Rightarrow> Inl e
           | Inr r \<Rightarrow> Inr (py_int r)))"

text \<open>
  \<^verbatim>\<open>__init__\<close>. The Redis client connects on first use and is not part of the record.
  \<^verbatim>\<open>bitarray(n)\<close> raises \<^verbatim>\<open>ValueError\<close> for a negative length.
\<close>

definition init :: "int \<Rightarrow> rat \<Rightarrow> py_error + bloom_cache" where
  "init cap error_rate =
     (case optimal_size cap error_rate of
        Inl e \<Rightarrow> Inl e
      | Inr m \<Rightarrow>
          (case optimal_hash_count m cap of
             Inl e \<Rightarrow> Inl e
           | Inr k \<Rightarrow>
               if m < 0 then Inl ValueError
               else Inr \<lparr>capacity = cap, size_bits = m, hash_count = k,
                         bloom = replicate (nat m) False, local_cache = [], max_local = 100\<rparr>))"

text \<open>The sizing rules of the specification, on the reals, for comparison.\<close>

definition standard_size :: "int \<Rightarrow> real \<Rightarrow> int" where
  "standard_size n p = \<lceil>- real_of_int n * ln p / (ln 2)\<^sup>2\<rceil>"

definition standard_hash_count :: "int \<Rightarrow> int \<Rightarrow> int" where
  "standard_hash_count m n = max 1 (round (real_of_int m / real_of_int n * ln 2))"

subsection \<open>Lookup and store\<close>

text \<open>
  What the Redis server answers to a call: it fails (connection error, timeout) or
  replies. The answer to \<^verbatim>\<open>GET\<close> is the stored string or nothing.
\<close>

datatype 'a redis_reply = RedisFailure | RedisReply 'a

datatype redis_call = GET string | SETEX string int string

text \<open>\<^verbatim>\<open>min(self.local_cache.keys())\<close>: strings compare lexicographically; the minimum of
  no keys raises \<^verbatim>\<open>ValueError\<close>.\<close>

definition min_key :: "(string \<times> string) list \<Rightarrow> py_error + string" where
  "min_key d = (case map fst d of [] \<Rightarrow> Inl ValueError | k # ks \<Rightarrow> Inr (fold min ks k))"

text \<open>
  \<^verbatim>\<open>get\<close>. The dictionary is an association list: \<open>AList.update\<close> overwrites in place or
  appends, as a Python \<^verbatim>\<open>dict\<close> does. \<^verbatim>\<open>if result:\<close> holds for a non-empty string only.
\<close>

definition get ::
  "(string \<Rightarrow> string option redis_reply) \<Rightarrow> bloom_cache \<Rightarrow> string
     \<Rightarrow> (py_error + string option) \<times> bloom_cache \<times> redis_call list" where
  "get redis_get s prompt =
     (let key = md5_hexdigest prompt in
      case map_of (local_cache s) key of
        Some v \<Rightarrow> (Inr (Some v), s, [])
      | None \<Rightarrow>
          (case might_exist s key of
             Inl e \<Rightarrow> (Inl e, s, [])
           | Inr False \<Rightarrow> (Inr None, s, [])
           | Inr True \<Rightarrow>
               (case redis_get (''cache:'' @ key) of
                  RedisFailure \<Rightarrow> (Inl RedisError, s, [GET (''cache:'' @ key)])
                | RedisReply None \<Rightarrow> (Inr None, s, [GET (''cache:'' @ key)])
                | RedisReply (Some result) \<Rightarrow>
                    if result \<noteq> [] then
                      (if max_local s \<le> int (length (local_cache s)) then
                         (case min_key (local_cache s) of
                            Inl e \<Rightarrow> (Inl e, s, [GET (''cache:'' @ key)])
                          | Inr oldest \<Rightarrow>
                              (Inr (Some result),
                               s\<lparr>local_cache :=
                                    AList.update key result (AList.delete oldest (local_cache s))\<rparr>,
                               [GET (''cache:'' @ key)]))
                       else
                         (Inr (Some result),
                          s\<lparr>local_cache := AList.update key result (local_cache s)\<rparr>,
                          [GET (''cache:'' @ key)]))
                    else (Inr (Some result), s, [GET (''cache:'' @ key)]))))"

text \<open>\<^verbatim>\<open>set\<close>: the filter, then Redis, then the dictionary; an exception ends the call.\<close>

definition set_op ::
  "(string \<Rightarrow> int \<Rightarrow> string \<Rightarrow> unit redis_reply) \<Rightarrow> bloom_cache \<Rightarrow> string \<Rightarrow> string \<Rightarrow> int
     \<Rightarrow> (py_error + unit) \<times> bloom_cache \<times> redis_call list" where
  "set_op redis_setex s prompt response ttl =
     (let key = md5_hexdigest prompt in
      case add s key of
        (Inl e, s1) \<Rightarrow> (Inl e, s1, [])
      | (Inr _, s1) \<Rightarrow>
          (case redis_setex (''cache:'' @ key) ttl response of
             RedisFailure \<Rightarrow> (Inl RedisError, s1, [SETEX (''cache:'' @ key) ttl response])
           | RedisReply _ \<Rightarrow>
               (Inr (), s1\<lparr>local_cache := AList.update key response (local_cache s1)\<rparr>,
                [SETEX (''cache:'' @ key) ttl response])))"

text \<open>The module's two entry points, on the module's one object.\<close>

definition cached_completion ::
  "(string \<Rightarrow> string option redis_reply) \<Rightarrow> bloom_cache \<Rightarrow> string
     \<Rightarrow> (py_error + string option) \<times> bloom_cache \<times> redis_call list" where
  "cached_completion redis_get s prompt = get redis_get s prompt"

definition cache_response ::
  "(string \<Rightarrow> int \<Rightarrow> string \<Rightarrow> unit redis_reply) \<Rightarrow> bloom_cache \<Rightarrow> string \<Rightarrow> string
     \<Rightarrow> (py_error + unit) \<times> bloom_cache \<times> redis_call list" where
  "cache_response redis_setex s prompt response = set_op redis_setex s prompt response 3600"

text \<open>A run of \<^verbatim>\<open>set\<close> calls that ends at the first exception.\<close>

fun set_all ::
  "(string \<Rightarrow> int \<Rightarrow> string \<Rightarrow> unit redis_reply) \<Rightarrow> bloom_cache \<Rightarrow> (string \<times> string) list
     \<Rightarrow> (py_error + unit) \<times> bloom_cache" where
  "set_all redis_setex s [] = (Inr (), s)"
| "set_all redis_setex s ((prompt, response) # rest) =
     (case set_op redis_setex s prompt response 3600 of
        (Inl e, s1, _) \<Rightarrow> (Inl e, s1)
      | (Inr _, s1, _) \<Rightarrow> set_all redis_setex s1 rest)"

subsection \<open>Auxiliary notions\<close>

text \<open>One bit array extends another: same length, and every set bit stays set.\<close>

definition bits_le :: "bool list \<Rightarrow> bool list \<Rightarrow> bool" where
  "bits_le a b \<longleftrightarrow> length a = length b \<and> (\<forall>j < length a. a ! j \<longrightarrow> b ! j)"

text \<open>
  An object with an empty filter of \<open>m\<close> bits and \<open>k\<close> hash functions, an empty
  dictionary and room for \<open>l\<close> local entries.
\<close>

definition empty_cache :: "int \<Rightarrow> int \<Rightarrow> int \<Rightarrow> bloom_cache" where
  "empty_cache m k l =
     \<lparr>capacity = 1, size_bits = m, hash_count = k, bloom = replicate (nat m) False,
      local_cache = [], max_local = l\<rparr>"


section \<open>Values of the library functions\<close>

text \<open>
  Published test vectors of the two hash functions, and the digests and hash values that
  the examples below use, all computed by rewriting.
\<close>

lemma md5_empty: "md5_hexdigest [] = ''d41d8cd98f00b204e9800998ecf8427e''"
  by code_simp

lemma mmh3_foo: "mmh3_hash ''foo'' 0 = - 156908512" "mmh3_hash ''foo'' 42 = - 1322301282"
  by code_simp+

lemma md5_A: "md5_hexdigest ''A'' = ''7fc56270e7a70fa81a5935b72eacbe29''"
  by code_simp

lemma md5_B: "md5_hexdigest ''B'' = ''9d5ed678fe57bcca610140957afab571''"
  by code_simp

lemma md5_C: "md5_hexdigest ''C'' = ''0d61f8370cad1d412f80b84d143e1257''"
  by code_simp

lemma mmh3_A:
  "mmh3_hash ''7fc56270e7a70fa81a5935b72eacbe29'' 0 = 308624668"
  "mmh3_hash ''7fc56270e7a70fa81a5935b72eacbe29'' 1 = - 380198710"
  by code_simp+

lemma mmh3_B:
  "mmh3_hash ''9d5ed678fe57bcca610140957afab571'' 0 = 1395796360"
  "mmh3_hash ''9d5ed678fe57bcca610140957afab571'' 1 = - 335169922"
  by code_simp+


section \<open>The filter\<close>

subsection \<open>Setting bits only ever extends the bit array\<close>

lemma bits_le_refl: "bits_le a a"
  by (simp add: bits_le_def)

lemma bits_le_trans: "bits_le a b \<Longrightarrow> bits_le b c \<Longrightarrow> bits_le a c"
  by (auto simp: bits_le_def)

lemma py_index_less: "py_index n pos = Some j \<Longrightarrow> j < n"
  by (auto simp: py_index_def split: if_splits)

lemma bits_le_update: "bits_le a (a[j := True])"
  by (cases "j < length a") (auto simp: bits_le_def nth_list_update)

lemma set_bits_extends: "bits_le bits (snd (set_bits bits ps))"
proof (induction ps arbitrary: bits)
  case Nil
  show ?case by (simp add: bits_le_refl)
next
  case (Cons p ps)
  show ?case
  proof (cases "py_index (length bits) p")
    case None
    then show ?thesis by (simp add: bits_le_refl)
  next
    case (Some j)
    have "bits_le bits (bits[j := True])" by (rule bits_le_update)
    moreover have "bits_le (bits[j := True]) (snd (set_bits (bits[j := True]) ps))"
      by (rule Cons.IH)
    ultimately show ?thesis using Some by (auto intro: bits_le_trans)
  qed
qed

lemma all_set_mono:
  "all_set a ps = Inr True \<Longrightarrow> bits_le a b \<Longrightarrow> all_set b ps = Inr True"
proof (induction ps)
  case Nil
  show ?case by simp
next
  case (Cons p ps)
  from Cons.prems(2) have len: "length a = length b" by (simp add: bits_le_def)
  show ?case
  proof (cases "py_index (length a) p")
    case None
    with Cons.prems(1) show ?thesis by simp
  next
    case (Some j)
    with Cons.prems(1) have aj: "a ! j" and rest: "all_set a ps = Inr True"
      by (auto split: if_splits)
    from Some have "j < length a" by (rule py_index_less)
    with aj Cons.prems(2) have "b ! j" by (simp add: bits_le_def)
    moreover have "all_set b ps = Inr True" using rest Cons.prems(2) by (rule Cons.IH)
    ultimately show ?thesis using Some len by simp
  qed
qed

lemma set_bits_then_all_set:
  "fst (set_bits bits ps) = Inr () \<Longrightarrow> all_set (snd (set_bits bits ps)) ps = Inr True"
proof (induction ps arbitrary: bits)
  case Nil
  show ?case by simp
next
  case (Cons p ps)
  show ?case
  proof (cases "py_index (length bits) p")
    case None
    with Cons.prems show ?thesis by simp
  next
    case (Some j)
    let ?b1 = "bits[j := True]"
    let ?b2 = "snd (set_bits ?b1 ps)"
    from Some have j: "j < length bits" by (rule py_index_less)
    from Cons.prems Some have ok: "fst (set_bits ?b1 ps) = Inr ()" by simp
    have ext: "bits_le ?b1 ?b2" by (rule set_bits_extends)
    then have len: "length ?b2 = length bits" by (simp add: bits_le_def)
    from ext j have "?b2 ! j" by (simp add: bits_le_def)
    moreover have "all_set ?b2 ps = Inr True" using ok by (rule Cons.IH)
    ultimately show ?thesis using Some len by simp
  qed
qed

lemma set_bits_absorbed:
  "bits_le (snd (set_bits bits ps)) b \<Longrightarrow> set_bits b ps = (fst (set_bits bits ps), b)"
proof (induction ps arbitrary: bits)
  case Nil
  show ?case by simp
next
  case (Cons p ps)
  have "bits_le bits (snd (set_bits bits (p # ps)))" by (rule set_bits_extends)
  then have le: "bits_le bits b" using Cons.prems by (rule bits_le_trans)
  then have len: "length b = length bits" by (simp add: bits_le_def)
  show ?case
  proof (cases "py_index (length bits) p")
    case None
    then show ?thesis using len by simp
  next
    case (Some j)
    let ?b1 = "bits[j := True]"
    from Some have j: "j < length bits" by (rule py_index_less)
    from Cons.prems Some have le1: "bits_le (snd (set_bits ?b1 ps)) b" by simp
    have "bits_le ?b1 (snd (set_bits ?b1 ps))" by (rule set_bits_extends)
    then have "bits_le ?b1 b" using le1 by (rule bits_le_trans)
    with j have "b ! j" by (simp add: bits_le_def)
    then have "b[j := True] = b" by (metis list_update_id)
    moreover have "set_bits b ps = (fst (set_bits ?b1 ps), b)" using le1 by (rule Cons.IH)
    ultimately show ?thesis using Some len by simp
  qed
qed


subsection \<open>\<^verbatim>\<open>add\<close> and \<^verbatim>\<open>might_exist\<close>\<close>

lemma add_alt:
  "add s k =
     (case get_hash_positions s k of
        Inl e \<Rightarrow> (Inl e, s)
      | Inr ps \<Rightarrow> (fst (set_bits (bloom s) ps), s\<lparr>bloom := snd (set_bits (bloom s) ps)\<rparr>))"
  by (simp add: add_def split: sum.splits prod.splits)

lemma get_hash_positions_bloom [simp]:
  "get_hash_positions (s\<lparr>bloom := b\<rparr>) x = get_hash_positions s x"
  by (simp add: get_hash_positions_def)

lemma add_fields [simp]:
  "size_bits (snd (add s k)) = size_bits s"
  "hash_count (snd (add s k)) = hash_count s"
  "local_cache (snd (add s k)) = local_cache s"
  "max_local (snd (add s k)) = max_local s"
  "capacity (snd (add s k)) = capacity s"
  by (simp_all add: add_alt split: sum.splits)

lemma get_hash_positions_add [simp]:
  "get_hash_positions (snd (add s k)) x = get_hash_positions s x"
  by (simp add: add_alt split: sum.splits)

lemma bloom_add: "bits_le (bloom s) (bloom (snd (add s k)))"
  by (simp add: add_alt bits_le_refl set_bits_extends split: sum.splits)

lemma might_exist_add_mono:
  "might_exist s y = Inr True \<Longrightarrow> might_exist (snd (add s x)) y = Inr True"
  by (auto simp: might_exist_def split: sum.splits intro: all_set_mono bloom_add)

lemma might_exist_add_all_mono:
  "might_exist s y = Inr True \<Longrightarrow> might_exist (add_all s ks) y = Inr True"
  by (induction ks arbitrary: s) (auto intro: might_exist_add_mono)

lemma add_then_might_exist:
  "fst (add s x) = Inr () \<Longrightarrow> might_exist (snd (add s x)) x = Inr True"
  by (cases "get_hash_positions s x")
    (simp_all add: add_alt might_exist_def set_bits_then_all_set)

lemma add_idem: "add (snd (add s x)) x = add s x"
proof (cases "get_hash_positions s x")
  case (Inl e)
  then show ?thesis by (simp add: add_alt)
next
  case (Inr ps)
  let ?b = "snd (set_bits (bloom s) ps)"
  have same: "get_hash_positions (s\<lparr>bloom := ?b\<rparr>) x = Inr ps"
    using Inr by simp
  have "set_bits ?b ps = (fst (set_bits (bloom s) ps), ?b)"
    by (rule set_bits_absorbed) (rule bits_le_refl)
  then show ?thesis using Inr same by (simp add: add_alt)
qed

lemma add_error: "fst (add s k) = Inl e \<Longrightarrow> e = IndexError \<or> e = ZeroDivisionError"
proof -
  have sb: "\<And>bits ps e. fst (set_bits bits ps) = Inl e \<Longrightarrow> e = IndexError"
  proof -
    fix bits ps e
    show "fst (set_bits bits ps) = Inl e \<Longrightarrow> e = IndexError"
      by (induction ps arbitrary: bits) (auto split: option.splits)
  qed
  assume "fst (add s k) = Inl e"
  then show ?thesis
    by (auto simp: add_alt get_hash_positions_def split: sum.splits if_splits dest: sb)
qed

lemma add_A:
  "add (empty_cache 8 2 100) ''7fc56270e7a70fa81a5935b72eacbe29'' =
     (Inr (), (empty_cache 8 2 100)\<lparr>bloom := [False, False, True, False, True, False, False, False]\<rparr>)"
  by (simp add: add_alt get_hash_positions_def empty_cache_def mmh3_A py_index_def
      numeral_eq_Suc)

lemma add_B:
  "add (empty_cache 8 2 100) ''9d5ed678fe57bcca610140957afab571'' =
     (Inr (), (empty_cache 8 2 100)\<lparr>bloom := [True, False, False, False, False, False, True, False]\<rparr>)"
  by (simp add: add_alt get_hash_positions_def empty_cache_def mmh3_B py_index_def
      numeral_eq_Suc)

text \<open>
  Claim C3 (no false negatives). Once \<^verbatim>\<open>add(x)\<close> has returned, \<^verbatim>\<open>might_exist(x)\<close>
  is true after any further run of \<^verbatim>\<open>add\<close> calls, whether or not those calls raise: no
  call clears a bit. The statement holds for every object state, also one whose bit array
  and \<^verbatim>\<open>size\<close> disagree.
\<close>

theorem no_false_negatives:
  "fst (add s x) = Inr () \<Longrightarrow> might_exist (add_all (snd (add s x)) ys) x = Inr True"
  by (rule might_exist_add_all_mono) (rule add_then_might_exist)

text \<open>
  An instance: an empty filter of 8 bits with 2 hash functions, the digest of \<^verbatim>\<open>"A"\<close>
  added, then the digest of \<^verbatim>\<open>"B"\<close>.
\<close>

theorem no_false_negatives_witness:
  "fst (add (empty_cache 8 2 100) ''7fc56270e7a70fa81a5935b72eacbe29'') = Inr ()
   \<and> might_exist
       (add_all (snd (add (empty_cache 8 2 100) ''7fc56270e7a70fa81a5935b72eacbe29''))
          [''9d5ed678fe57bcca610140957afab571''])
       ''7fc56270e7a70fa81a5935b72eacbe29'' = Inr True"
proof -
  have h: "fst (add (empty_cache 8 2 100) ''7fc56270e7a70fa81a5935b72eacbe29'') = Inr ()"
    by (simp add: add_A)
  from h no_false_negatives [OF h] show ?thesis by (rule conjI)
qed

text \<open>
  Claim C10 (idempotence). In every object state a second \<^verbatim>\<open>add(x)\<close> returns what the
  first returned and leaves the object as the first left it; and \<^verbatim>\<open>add(x)\<close> never turns
  a true answer of \<^verbatim>\<open>might_exist(y)\<close> into anything else.
\<close>

theorem add_idempotent_monotone:
  "add (snd (add s x)) x = add s x \<and>
   (might_exist s y = Inr True \<longrightarrow> might_exist (snd (add s x)) y = Inr True)"
  using add_idem might_exist_add_mono by blast

text \<open>
  An instance: the digest of \<^verbatim>\<open>"B"\<close> is in an 8-bit filter, the digest of \<^verbatim>\<open>"A"\<close> is
  added twice.
\<close>

theorem add_idempotent_monotone_witness:
  "add (snd (add (snd (add (empty_cache 8 2 100) ''9d5ed678fe57bcca610140957afab571''))
               ''7fc56270e7a70fa81a5935b72eacbe29''))
       ''7fc56270e7a70fa81a5935b72eacbe29''
     = add (snd (add (empty_cache 8 2 100) ''9d5ed678fe57bcca610140957afab571''))
         ''7fc56270e7a70fa81a5935b72eacbe29''
   \<and> might_exist (snd (add (empty_cache 8 2 100) ''9d5ed678fe57bcca610140957afab571''))
       ''9d5ed678fe57bcca610140957afab571'' = Inr True
   \<and> might_exist
       (snd (add (snd (add (empty_cache 8 2 100) ''9d5ed678fe57bcca610140957afab571''))
               ''7fc56270e7a70fa81a5935b72eacbe29''))
       ''9d5ed678fe57bcca610140957afab571'' = Inr True"
proof -
  let ?s = "snd (add (empty_cache 8 2 100) ''9d5ed678fe57bcca610140957afab571'')"
  have h: "might_exist ?s ''9d5ed678fe57bcca610140957afab571'' = Inr True"
    by (simp add: add_B)
      (simp add: might_exist_def get_hash_positions_def empty_cache_def mmh3_B
        py_index_def numeral_eq_Suc)
  from add_idempotent_monotone
    [of ?s "''7fc56270e7a70fa81a5935b72eacbe29''" "''9d5ed678fe57bcca610140957afab571''"] h
  show ?thesis by blast
qed


section \<open>Lookup and store\<close>

lemma length_update_new:
  "k \<notin> fst ` set al \<Longrightarrow> length (AList.update k v al) = Suc (length al)"
  by (induction al) auto

lemma set_op_alt:
  "set_op r s prompt response ttl =
     (let key = md5_hexdigest prompt; s1 = snd (add s key) in
      case fst (add s key) of
        Inl e \<Rightarrow> (Inl e, s1, [])
      | Inr u \<Rightarrow>
          (case r (''cache:'' @ key) ttl response of
             RedisFailure \<Rightarrow> (Inl RedisError, s1, [SETEX (''cache:'' @ key) ttl response])
           | RedisReply u \<Rightarrow>
               (Inr (), s1\<lparr>local_cache := AList.update key response (local_cache s)\<rparr>,
                [SETEX (''cache:'' @ key) ttl response])))"
proof -
  obtain a b where ab: "add s (md5_hexdigest prompt) = (a, b)"
    by (cases "add s (md5_hexdigest prompt)")
  have "local_cache (snd (add s (md5_hexdigest prompt))) = local_cache s" by simp
  with ab have "local_cache b = local_cache s" by simp
  with ab show ?thesis
    by (simp add: set_op_def Let_def split: sum.splits redis_reply.splits)
qed

lemma set_op_success:
  assumes "fst (set_op r s prompt v ttl) = Inr ()"
  shows "local_cache (fst (snd (set_op r s prompt v ttl)))
           = AList.update (md5_hexdigest prompt) v (local_cache s)"
    and "max_local (fst (snd (set_op r s prompt v ttl))) = max_local s"
  using assms by (auto simp: set_op_alt Let_def split: sum.splits redis_reply.splits)

lemma all_set_unset:
  "\<forall>p \<in> set ps. 0 \<le> p \<and> p < int (length bits) \<Longrightarrow> \<exists>p \<in> set ps. \<not> bits ! nat p
     \<Longrightarrow> all_set bits ps = Inr False"
  by (induction ps) (auto simp: py_index_def)

lemma min_key_Min:
  "d \<noteq> [] \<Longrightarrow> min_key d = Inr (Min (fst ` set d))"
  by (cases d) (simp_all add: min_key_def Min.set_eq_fold [symmetric])

text \<open>
  Claim C4 (store, then lookup). If \<^verbatim>\<open>set(prompt, v, ttl)\<close> returns normally, then
  \<^verbatim>\<open>get(prompt)\<close> on the state it leaves returns \<open>v\<close>, whatever the Redis server would
  answer, without calling Redis and without changing the object.
\<close>

theorem store_then_lookup:
  assumes "set_op r s prompt v ttl = (Inr (), s', calls)"
  shows "get r' s' prompt = (Inr (Some v), s', [])"
proof -
  let ?key = "md5_hexdigest prompt"
  from assms have "local_cache s' = AList.update ?key v (local_cache s)"
    by (auto simp: set_op_alt Let_def split: sum.splits redis_reply.splits)
  then have "map_of (local_cache s') ?key = Some v"
    by (simp add: update_conv')
  then show ?thesis by (simp add: get_def)
qed

text \<open>
  An instance: \<^verbatim>\<open>set("A", "respA")\<close> on an empty object with an 8-bit filter, then
  \<^verbatim>\<open>get("A")\<close> while Redis is down.
\<close>

theorem store_then_lookup_witness:
  "set_op (\<lambda>k ttl v. RedisReply ()) (empty_cache 8 2 100) ''A'' ''respA'' 3600 =
     (Inr (),
      (empty_cache 8 2 100)
        \<lparr>bloom := [False, False, True, False, True, False, False, False],
         local_cache := [(''7fc56270e7a70fa81a5935b72eacbe29'', ''respA'')]\<rparr>,
      [SETEX ''cache:7fc56270e7a70fa81a5935b72eacbe29'' 3600 ''respA''])
   \<and> get (\<lambda>k. RedisFailure)
       ((empty_cache 8 2 100)
          \<lparr>bloom := [False, False, True, False, True, False, False, False],
           local_cache := [(''7fc56270e7a70fa81a5935b72eacbe29'', ''respA'')]\<rparr>) ''A'' =
     (Inr (Some ''respA''),
      (empty_cache 8 2 100)
        \<lparr>bloom := [False, False, True, False, True, False, False, False],
         local_cache := [(''7fc56270e7a70fa81a5935b72eacbe29'', ''respA'')]\<rparr>,
      [])"
proof -
  have h: "set_op (\<lambda>k ttl v. RedisReply ()) (empty_cache 8 2 100) ''A'' ''respA'' 3600 =
     (Inr (),
      (empty_cache 8 2 100)
        \<lparr>bloom := [False, False, True, False, True, False, False, False],
         local_cache := [(''7fc56270e7a70fa81a5935b72eacbe29'', ''respA'')]\<rparr>,
      [SETEX ''cache:7fc56270e7a70fa81a5935b72eacbe29'' 3600 ''respA''])"
    by (simp add: set_op_alt md5_A add_A Let_def) (simp add: empty_cache_def)
  from h store_then_lookup [OF h] show ?thesis by (rule conjI)
qed

text \<open>
  Claim C7 (the filter gate). Let the filter be well formed (a positive \<^verbatim>\<open>size\<close>, and that
  many bits), the key of the prompt be absent from the dictionary, and one of the key's
  \<^verbatim>\<open>hash_count\<close> positions be an unset bit. Then \<^verbatim>\<open>get(prompt)\<close> returns \<^verbatim>\<open>None\<close>,
  calls Redis not at all and leaves the object unchanged.
\<close>

theorem lookup_filter_gate:
  assumes "map_of (local_cache s) (md5_hexdigest prompt) = None"
    and "0 < size_bits s" and "int (length (bloom s)) = size_bits s"
    and "\<exists>i. 0 \<le> i \<and> i < hash_count s \<and>
           \<not> bloom s ! nat (mmh3_hash (md5_hexdigest prompt) i mod size_bits s)"
  shows "get r s prompt = (Inr None, s, [])"
proof -
  let ?key = "md5_hexdigest prompt"
  let ?ps = "map (\<lambda>i. mmh3_hash ?key (int i) mod size_bits s) [0..<nat (hash_count s)]"
  from assms(2) have pos: "get_hash_positions s ?key = Inr ?ps"
    by (simp add: get_hash_positions_def)
  have valid: "\<forall>p \<in> set ?ps. 0 \<le> p \<and> p < int (length (bloom s))"
    using assms(2,3) by auto
  from assms(4) obtain i where i: "0 \<le> i" "i < hash_count s"
    and unset: "\<not> bloom s ! nat (mmh3_hash ?key i mod size_bits s)" by blast
  from i have "mmh3_hash ?key i mod size_bits s \<in> set ?ps"
    by (auto simp: image_iff intro!: bexI [of _ "nat i"])
  with unset have "\<exists>p \<in> set ?ps. \<not> bloom s ! nat p" by blast
  with valid have "all_set (bloom s) ?ps = Inr False" by (rule all_set_unset)
  with pos have "might_exist s ?key = Inr False" by (simp add: might_exist_def)
  with assms(1) show ?thesis by (simp add: get_def)
qed

text \<open>
  An instance: \<^verbatim>\<open>get("A")\<close> on an empty 8-bit filter with 2 hash functions, while Redis
  holds a value for the key.
\<close>

theorem lookup_filter_gate_witness:
  "map_of (local_cache (empty_cache 8 2 100)) (md5_hexdigest ''A'') = None
   \<and> 0 < size_bits (empty_cache 8 2 100)
   \<and> int (length (bloom (empty_cache 8 2 100))) = size_bits (empty_cache 8 2 100)
   \<and> 0 < hash_count (empty_cache 8 2 100)
   \<and> \<not> bloom (empty_cache 8 2 100)
         ! nat (mmh3_hash (md5_hexdigest ''A'') 0 mod size_bits (empty_cache 8 2 100))
   \<and> get (\<lambda>k. RedisReply (Some ''respA'')) (empty_cache 8 2 100) ''A'' =
       (Inr None, empty_cache 8 2 100, [])"
proof -
  let ?s = "empty_cache 8 2 100"
  have h1: "map_of (local_cache ?s) (md5_hexdigest ''A'') = None"
    by (simp add: empty_cache_def)
  have h2: "0 < size_bits ?s" by (simp add: empty_cache_def)
  have h3: "int (length (bloom ?s)) = size_bits ?s" by (simp add: empty_cache_def)
  have h4: "0 < hash_count ?s" by (simp add: empty_cache_def)
  have h5: "\<not> bloom ?s ! nat (mmh3_hash (md5_hexdigest ''A'') 0 mod size_bits ?s)"
    by (simp add: empty_cache_def md5_A mmh3_A)
  from h4 h5 have h6: "\<exists>i. 0 \<le> i \<and> i < hash_count ?s \<and>
      \<not> bloom ?s ! nat (mmh3_hash (md5_hexdigest ''A'') i mod size_bits ?s)"
    by (intro exI [of _ 0]) simp
  from h1 h2 h3 h4 h5
    lookup_filter_gate [of ?s "''A''" "\<lambda>k. RedisReply (Some ''respA'')", OF h1 h2 h3 h6]
  show ?thesis by blast
qed

text \<open>
  Claim C8 (filter before store). If \<^verbatim>\<open>set\<close> ends with the Redis error, then the
  \<^verbatim>\<open>SETEX\<close> call was issued and failed, \<^verbatim>\<open>add\<close> had returned normally before it, the
  object is left exactly as \<^verbatim>\<open>add\<close> left it, and in that state \<^verbatim>\<open>might_exist\<close> of the key
  is true.
\<close>

theorem store_failure_filter_set:
  assumes "fst (set_op r s prompt response ttl) = Inl RedisError"
  shows "set_op r s prompt response ttl =
           (Inl RedisError, snd (add s (md5_hexdigest prompt)),
            [SETEX (''cache:'' @ md5_hexdigest prompt) ttl response])
         \<and> r (''cache:'' @ md5_hexdigest prompt) ttl response = RedisFailure
         \<and> fst (add s (md5_hexdigest prompt)) = Inr ()
         \<and> might_exist (snd (add s (md5_hexdigest prompt))) (md5_hexdigest prompt) = Inr True"
proof -
  let ?key = "md5_hexdigest prompt"
  have ok: "fst (add s ?key) = Inr ()"
  proof (cases "fst (add s ?key)")
    case (Inl e)
    with assms have "e = RedisError" by (simp add: set_op_alt Let_def)
    moreover from Inl have "e = IndexError \<or> e = ZeroDivisionError" by (rule add_error)
    ultimately show ?thesis by simp
  next
    case (Inr u)
    then show ?thesis by simp
  qed
  from ok have "might_exist (snd (add s ?key)) ?key = Inr True" by (rule add_then_might_exist)
  with ok assms show ?thesis
    by (cases "r (''cache:'' @ ?key) ttl response") (simp_all add: set_op_alt Let_def)
qed

text \<open>
  An instance: \<^verbatim>\<open>set("A", "respA")\<close> on an empty 8-bit filter while Redis is down; bits 2
  and 4 are set afterwards.
\<close>

theorem store_failure_filter_set_witness:
  "fst (set_op (\<lambda>k ttl v. RedisFailure) (empty_cache 8 2 100) ''A'' ''respA'' 3600)
     = Inl RedisError
   \<and> set_op (\<lambda>k ttl v. RedisFailure) (empty_cache 8 2 100) ''A'' ''respA'' 3600 =
       (Inl RedisError,
        (empty_cache 8 2 100)\<lparr>bloom := [False, False, True, False, True, False, False, False]\<rparr>,
        [SETEX ''cache:7fc56270e7a70fa81a5935b72eacbe29'' 3600 ''respA''])
   \<and> might_exist
       ((empty_cache 8 2 100)\<lparr>bloom := [False, False, True, False, True, False, False, False]\<rparr>)
       ''7fc56270e7a70fa81a5935b72eacbe29'' = Inr True"
proof -
  have h: "fst (set_op (\<lambda>k ttl v. RedisFailure) (empty_cache 8 2 100) ''A'' ''respA'' 3600)
     = Inl RedisError"
    by (simp add: set_op_alt md5_A add_A Let_def)
  from h store_failure_filter_set [OF h] show ?thesis
    by (simp add: md5_A add_A)
qed

text \<open>
  Claim C9 (a Redis miss leaves the dictionary alone). If the key is absent from the
  dictionary, the filter answers "possibly present" and Redis replies that it has no value,
  then \<^verbatim>\<open>get\<close> returns \<^verbatim>\<open>None\<close> after one \<^verbatim>\<open>GET\<close> and the whole object, the dictionary
  included, is unchanged.
\<close>

theorem lookup_redis_miss:
  assumes "map_of (local_cache s) (md5_hexdigest prompt) = None"
    and "might_exist s (md5_hexdigest prompt) = Inr True"
    and "r (''cache:'' @ md5_hexdigest prompt) = RedisReply None"
  shows "get r s prompt = (Inr None, s, [GET (''cache:'' @ md5_hexdigest prompt)])"
  using assms by (simp add: get_def)

text \<open>
  An instance: the digest of \<^verbatim>\<open>"A"\<close> is in the filter, the dictionary is empty and the
  Redis entry has expired.
\<close>

theorem lookup_redis_miss_witness:
  "map_of (local_cache (snd (add (empty_cache 8 2 100) (md5_hexdigest ''A''))))
       (md5_hexdigest ''A'') = None
   \<and> might_exist (snd (add (empty_cache 8 2 100) (md5_hexdigest ''A'')))
       (md5_hexdigest ''A'') = Inr True
   \<and> get (\<lambda>k. RedisReply None) (snd (add (empty_cache 8 2 100) (md5_hexdigest ''A''))) ''A'' =
       (Inr None, snd (add (empty_cache 8 2 100) (md5_hexdigest ''A'')),
        [GET (''cache:'' @ md5_hexdigest ''A'')])"
proof -
  let ?s = "snd (add (empty_cache 8 2 100) (md5_hexdigest ''A''))"
  have h1: "map_of (local_cache ?s) (md5_hexdigest ''A'') = None"
    by (simp add: empty_cache_def)
  have h2: "might_exist ?s (md5_hexdigest ''A'') = Inr True"
    by (rule add_then_might_exist) (simp add: md5_A add_A)
  have h3: "(\<lambda>k. RedisReply None :: string option redis_reply) (''cache:'' @ md5_hexdigest ''A'')
              = RedisReply None"
    by simp
  from h1 h2 lookup_redis_miss [of ?s "''A''" "\<lambda>k. RedisReply None", OF h1 h2 h3]
  show ?thesis by blast
qed

text \<open>
  Claim C6 (a failing Redis call in lookup). The claim says that \<^verbatim>\<open>get\<close> then returns
  "not cached". It does not: \<^verbatim>\<open>get\<close> has no exception handler, so the error reaches the
  caller. On the object that \<^verbatim>\<open>BloomCache(capacity=1)\<close> builds, \<^verbatim>\<open>get("A")\<close> raises
  when Redis is down.
\<close>

theorem lookup_redis_failure_counterexample:
  "fst (get (\<lambda>k. RedisFailure)
          \<lparr>capacity = 1, size_bits = 0, hash_count = 0, bloom = [], local_cache = [],
           max_local = 100\<rparr> ''A'') = Inl RedisError
   \<and> fst (get (\<lambda>k. RedisFailure)
          \<lparr>capacity = 1, size_bits = 0, hash_count = 0, bloom = [], local_cache = [],
           max_local = 100\<rparr> ''A'') \<noteq> Inr None"
  by (simp add: get_def might_exist_def get_hash_positions_def)

text \<open>
  Claim C6, amended. If the key is absent from the dictionary, the filter answers
  "possibly present" and the Redis call fails, then \<^verbatim>\<open>get\<close> raises the Redis error to
  its caller after that one \<^verbatim>\<open>GET\<close>; the object is unchanged, so the failure touches
  nothing but that call.
\<close>

theorem lookup_redis_failure:
  assumes "map_of (local_cache s) (md5_hexdigest prompt) = None"
    and "might_exist s (md5_hexdigest prompt) = Inr True"
    and "r (''cache:'' @ md5_hexdigest prompt) = RedisFailure"
  shows "get r s prompt = (Inl RedisError, s, [GET (''cache:'' @ md5_hexdigest prompt)])"
  using assms by (simp add: get_def)

text \<open>
  An instance: an object whose filter has no hash functions, so that every key is
  "possibly present".
\<close>

theorem lookup_redis_failure_witness:
  "map_of (local_cache (empty_cache 0 0 100)) (md5_hexdigest ''A'') = None
   \<and> might_exist (empty_cache 0 0 100) (md5_hexdigest ''A'') = Inr True
   \<and> get (\<lambda>k. RedisFailure) (empty_cache 0 0 100) ''A'' =
       (Inl RedisError, empty_cache 0 0 100, [GET (''cache:'' @ md5_hexdigest ''A'')])"
proof -
  have h1: "map_of (local_cache (empty_cache 0 0 100)) (md5_hexdigest ''A'') = None"
    by (simp add: empty_cache_def)
  have h2: "might_exist (empty_cache 0 0 100) (md5_hexdigest ''A'') = Inr True"
    by (simp add: might_exist_def get_hash_positions_def empty_cache_def)
  have h3: "(\<lambda>k. RedisFailure :: string option redis_reply) (''cache:'' @ md5_hexdigest ''A'')
              = RedisFailure"
    by simp
  from h1 h2 lookup_redis_failure [of "empty_cache 0 0 100" "''A''" "\<lambda>k. RedisFailure", OF h1 h2 h3]
  show ?thesis by simp
qed

text \<open>
  Claim C2 (capacity of the dictionary). The claim bounds the dictionary by
  \<^verbatim>\<open>max_local\<close>. \<^verbatim>\<open>get\<close> evicts before it inserts, \<^verbatim>\<open>set\<close> does not: a run of
  \<^verbatim>\<open>set\<close> calls that all return normally, on prompts with distinct keys that are not yet
  in the dictionary, adds one entry per call, whatever \<^verbatim>\<open>max_local\<close> is, and
  \<^verbatim>\<open>max_local\<close> stays as it was.
\<close>

theorem store_never_evicts:
  assumes "fst (set_all r s ps) = Inr ()"
    and "distinct (map (\<lambda>p. md5_hexdigest (fst p)) ps)"
    and "\<forall>p \<in> set ps. md5_hexdigest (fst p) \<notin> fst ` set (local_cache s)"
  shows "length (local_cache (snd (set_all r s ps))) = length (local_cache s) + length ps
         \<and> max_local (snd (set_all r s ps)) = max_local s"
  using assms
proof (induction ps arbitrary: s)
  case Nil
  show ?case by simp
next
  case (Cons p ps)
  obtain prompt v where p: "p = (prompt, v)" by (cases p)
  obtain res s1 calls where so: "set_op r s prompt v 3600 = (res, s1, calls)"
    by (cases "set_op r s prompt v 3600")
  from Cons.prems(1) p so have res: "res = Inr ()" and rest: "fst (set_all r s1 ps) = Inr ()"
    by (auto split: sum.splits)
  from so res have ok: "fst (set_op r s prompt v 3600) = Inr ()" by simp
  from set_op_success [OF ok] so
  have lc: "local_cache s1 = AList.update (md5_hexdigest prompt) v (local_cache s)"
    and ml: "max_local s1 = max_local s" by simp_all
  from Cons.prems(3) p have new: "md5_hexdigest prompt \<notin> fst ` set (local_cache s)" by simp
  from lc new have len: "length (local_cache s1) = Suc (length (local_cache s))"
    by (simp add: length_update_new)
  have d: "distinct (map (\<lambda>p. md5_hexdigest (fst p)) ps)" using Cons.prems(2) by simp
  have fresh: "\<forall>q \<in> set ps. md5_hexdigest (fst q) \<notin> fst ` set (local_cache s1)"
  proof
    fix q
    assume q: "q \<in> set ps"
    with Cons.prems(3) have "md5_hexdigest (fst q) \<notin> fst ` set (local_cache s)" by simp
    moreover from Cons.prems(2) p q have "md5_hexdigest (fst q) \<noteq> md5_hexdigest prompt"
      by (auto simp: image_iff)
    ultimately show "md5_hexdigest (fst q) \<notin> fst ` set (local_cache s1)"
      by (simp add: lc dom_update)
  qed
  from Cons.IH [OF rest d fresh] len ml so res p show ?case by simp
qed

text \<open>
  An instance: with \<^verbatim>\<open>max_local = 2\<close>, three \<^verbatim>\<open>set\<close> calls leave three entries.
\<close>

theorem store_never_evicts_witness:
  "fst (set_all (\<lambda>k ttl v. RedisReply ()) (empty_cache 0 0 2)
          [(''A'', ''respA''), (''B'', ''respB''), (''C'', ''respC'')]) = Inr ()
   \<and> distinct [md5_hexdigest ''A'', md5_hexdigest ''B'', md5_hexdigest ''C'']
   \<and> local_cache (empty_cache 0 0 2) = []
   \<and> length (local_cache (snd (set_all (\<lambda>k ttl v. RedisReply ()) (empty_cache 0 0 2)
          [(''A'', ''respA''), (''B'', ''respB''), (''C'', ''respC'')]))) = 3
   \<and> max_local (snd (set_all (\<lambda>k ttl v. RedisReply ()) (empty_cache 0 0 2)
          [(''A'', ''respA''), (''B'', ''respB''), (''C'', ''respC'')])) = 2"
proof -
  let ?r = "\<lambda>k ttl v. RedisReply () :: unit redis_reply"
  let ?ps = "[(''A'', ''respA''), (''B'', ''respB''), (''C'', ''respC'')]"
  have add0: "\<And>s k. hash_count s = 0 \<Longrightarrow> add s k = (Inr (), s)"
    by (simp add: add_alt get_hash_positions_def)
  have h1: "fst (set_all ?r (empty_cache 0 0 2) ?ps) = Inr ()"
    by (simp add: set_op_alt Let_def add0 empty_cache_def)
  have h2: "distinct (map (\<lambda>p. md5_hexdigest (fst p)) ?ps)"
    by (simp add: md5_A md5_B md5_C)
  have h3: "\<forall>p \<in> set ?ps. md5_hexdigest (fst p) \<notin> fst ` set (local_cache (empty_cache 0 0 2))"
    by (simp add: empty_cache_def)
  have h4: "local_cache (empty_cache 0 0 2) = []" "max_local (empty_cache 0 0 2) = 2"
    by (simp_all add: empty_cache_def)
  from h1 h2 h4 store_never_evicts [OF h1 h2 h3] show ?thesis by simp
qed

text \<open>
  Claim C5 (which entry is evicted). The claim says the least recently used entry. When
  \<^verbatim>\<open>get\<close> inserts into a full dictionary it deletes the entry whose key is least in
  string order, no matter when that entry was written or last read.
\<close>

theorem lookup_evicts_smallest_key:
  assumes "map_of (local_cache s) (md5_hexdigest prompt) = None"
    and "might_exist s (md5_hexdigest prompt) = Inr True"
    and "r (''cache:'' @ md5_hexdigest prompt) = RedisReply (Some v)" and "v \<noteq> []"
    and "max_local s \<le> int (length (local_cache s))" and "local_cache s \<noteq> []"
  shows "get r s prompt =
           (Inr (Some v),
            s\<lparr>local_cache :=
                AList.update (md5_hexdigest prompt) v
                  (AList.delete (Min (fst ` set (local_cache s))) (local_cache s))\<rparr>,
            [GET (''cache:'' @ md5_hexdigest prompt)])"
  using assms by (simp add: get_def Let_def min_key_Min)

text \<open>
  An instance with \<^verbatim>\<open>max_local = 2\<close>: \<^verbatim>\<open>set("B")\<close>, \<^verbatim>\<open>set("A")\<close>, \<^verbatim>\<open>get("A")\<close>
  (a hit that changes nothing), then \<^verbatim>\<open>get("C")\<close> answered by Redis. The entry of
  \<^verbatim>\<open>"A"\<close>, written last and read last, is the one deleted, because its key
  \<^verbatim>\<open>7fc5...\<close> is less than the key \<^verbatim>\<open>9d5e...\<close> of \<^verbatim>\<open>"B"\<close>.
\<close>

theorem lookup_evicts_smallest_key_witness:
  "set_all (\<lambda>k ttl v. RedisReply ()) (empty_cache 0 0 2) [(''B'', ''respB''), (''A'', ''respA'')] =
     (Inr (),
      (empty_cache 0 0 2)
        \<lparr>local_cache := [(''9d5ed678fe57bcca610140957afab571'', ''respB''),
                         (''7fc56270e7a70fa81a5935b72eacbe29'', ''respA'')]\<rparr>)
   \<and> get (\<lambda>k. RedisFailure)
       ((empty_cache 0 0 2)
          \<lparr>local_cache := [(''9d5ed678fe57bcca610140957afab571'', ''respB''),
                           (''7fc56270e7a70fa81a5935b72eacbe29'', ''respA'')]\<rparr>) ''A'' =
       (Inr (Some ''respA''),
        (empty_cache 0 0 2)
          \<lparr>local_cache := [(''9d5ed678fe57bcca610140957afab571'', ''respB''),
                           (''7fc56270e7a70fa81a5935b72eacbe29'', ''respA'')]\<rparr>, [])
   \<and> get (\<lambda>k. RedisReply (Some ''respC''))
       ((empty_cache 0 0 2)
          \<lparr>local_cache := [(''9d5ed678fe57bcca610140957afab571'', ''respB''),
                           (''7fc56270e7a70fa81a5935b72eacbe29'', ''respA'')]\<rparr>) ''C'' =
       (Inr (Some ''respC''),
        (empty_cache 0 0 2)
          \<lparr>local_cache := [(''9d5ed678fe57bcca610140957afab571'', ''respB''),
                           (''0d61f8370cad1d412f80b84d143e1257'', ''respC'')]\<rparr>,
        [GET ''cache:0d61f8370cad1d412f80b84d143e1257''])"
proof -
  let ?s = "(empty_cache 0 0 2)
          \<lparr>local_cache := [(''9d5ed678fe57bcca610140957afab571'', ''respB''),
                           (''7fc56270e7a70fa81a5935b72eacbe29'', ''respA'')]\<rparr>"
  let ?r = "\<lambda>k. RedisReply (Some ''respC'') :: string option redis_reply"
  have add0: "\<And>s k. hash_count s = 0 \<Longrightarrow> add s k = (Inr (), s)"
    by (simp add: add_alt get_hash_positions_def)
  have c1: "set_all (\<lambda>k ttl v. RedisReply ()) (empty_cache 0 0 2)
      [(''B'', ''respB''), (''A'', ''respA'')] = (Inr (), ?s)"
    by (simp add: set_op_alt Let_def add0 empty_cache_def md5_A md5_B)
  have c2: "get (\<lambda>k. RedisFailure) ?s ''A'' = (Inr (Some ''respA''), ?s, [])"
    by (simp add: get_def md5_A)
  have h1: "map_of (local_cache ?s) (md5_hexdigest ''C'') = None"
    by (simp add: md5_C)
  have h2: "might_exist ?s (md5_hexdigest ''C'') = Inr True"
    by (simp add: might_exist_def get_hash_positions_def empty_cache_def)
  have h3: "?r (''cache:'' @ md5_hexdigest ''C'') = RedisReply (Some ''respC'')" by simp
  have h4: "''respC'' \<noteq> []" by simp
  have h5: "max_local ?s \<le> int (length (local_cache ?s))" by (simp add: empty_cache_def)
  have h6: "local_cache ?s \<noteq> []" by simp
  have m: "Min (fst ` set (local_cache ?s)) = ''7fc56270e7a70fa81a5935b72eacbe29''"
    by (simp add: min_def less_eq_char_def less_char_def)
  from lookup_evicts_smallest_key [of ?s "''C''" ?r "''respC''", OF h1 h2 h3 h4 h5 h6]
  have c3: "get ?r ?s ''C'' =
       (Inr (Some ''respC''),
        (empty_cache 0 0 2)
          \<lparr>local_cache := [(''9d5ed678fe57bcca610140957afab571'', ''respB''),
                           (''0d61f8370cad1d412f80b84d143e1257'', ''respC'')]\<rparr>,
        [GET ''cache:0d61f8370cad1d412f80b84d143e1257''])"
    unfolding m by (simp add: md5_C)
  from c1 c2 c3 show ?thesis by (intro conjI)
qed


subsection \<open>What the lookup path does keep\<close>

text \<open>
  A hit in the dictionary returns the stored value and changes nothing: no Redis call is
  made and nothing records that the entry was used.
\<close>

theorem local_hit_changes_nothing:
  "map_of (local_cache s) (md5_hexdigest prompt) = Some v
     \<Longrightarrow> get r s prompt = (Inr (Some v), s, [])"
  by (simp add: get_def)

text \<open>
  An instance: the entry of \<^verbatim>\<open>"A"\<close> is in the dictionary and Redis is down.
\<close>

theorem local_hit_changes_nothing_witness:
  "map_of (local_cache ((empty_cache 0 0 100)
       \<lparr>local_cache := [(''7fc56270e7a70fa81a5935b72eacbe29'', ''respA'')]\<rparr>))
     (md5_hexdigest ''A'') = Some ''respA''
   \<and> get (\<lambda>k. RedisFailure)
       ((empty_cache 0 0 100)\<lparr>local_cache := [(''7fc56270e7a70fa81a5935b72eacbe29'', ''respA'')]\<rparr>)
       ''A'' =
     (Inr (Some ''respA''),
      (empty_cache 0 0 100)\<lparr>local_cache := [(''7fc56270e7a70fa81a5935b72eacbe29'', ''respA'')]\<rparr>,
      [])"
proof -
  have h: "map_of (local_cache ((empty_cache 0 0 100)
       \<lparr>local_cache := [(''7fc56270e7a70fa81a5935b72eacbe29'', ''respA'')]\<rparr>))
     (md5_hexdigest ''A'') = Some ''respA''"
    by (simp add: md5_A)
  from h local_hit_changes_nothing [OF h] show ?thesis by (rule conjI)
qed

lemma length_update_le: "length (AList.update k v al) \<le> Suc (length al)"
  by (induction al) auto

lemma length_delete_less:
  "k \<in> fst ` set al \<Longrightarrow> length (AList.delete k al) < length al"
proof (induction al)
  case Nil
  then show ?case by simp
next
  case (Cons a al)
  show ?case
  proof (cases "fst a = k")
    case True
    then show ?thesis by (simp add: less_Suc_eq_le length_delete_le)
  next
    case False
    with Cons.prems have "k \<in> fst ` set al" by auto
    then have "length (AList.delete k al) < length al" by (rule Cons.IH)
    with False show ?thesis by simp
  qed
qed

lemma min_key_in: "min_key d = Inr k \<Longrightarrow> k \<in> fst ` set d"
proof -
  assume a: "min_key d = Inr k"
  then have ne: "d \<noteq> []" by (auto simp: min_key_def)
  with a have "k = Min (fst ` set d)" by (simp add: min_key_Min)
  moreover from ne have "Min (fst ` set d) \<in> fst ` set d" by (intro Min_in) simp_all
  ultimately show ?thesis by simp
qed

text \<open>
  \<^verbatim>\<open>get\<close> alone keeps the bound: after any call, whatever Redis answers, the dictionary
  is no longer than the larger of its length before and \<^verbatim>\<open>max_local\<close>.
\<close>

theorem lookup_respects_capacity:
  "length (local_cache (fst (snd (get r s prompt))))
     \<le> max (length (local_cache s)) (nat (max_local s))"
proof -
  have evict: "\<And>oldest k v. min_key (local_cache s) = Inr oldest \<Longrightarrow>
      length (AList.update k v (AList.delete oldest (local_cache s))) \<le> length (local_cache s)"
  proof -
    fix oldest k v
    assume "min_key (local_cache s) = Inr oldest"
    then have "oldest \<in> fst ` set (local_cache s)" by (rule min_key_in)
    then have "length (AList.delete oldest (local_cache s)) < length (local_cache s)"
      by (rule length_delete_less)
    moreover have "length (AList.update k v (AList.delete oldest (local_cache s)))
        \<le> Suc (length (AList.delete oldest (local_cache s)))" by (rule length_update_le)
    ultimately show "length (AList.update k v (AList.delete oldest (local_cache s)))
        \<le> length (local_cache s)" by simp
  qed
  have insert: "\<And>k v. \<not> max_local s \<le> int (length (local_cache s)) \<Longrightarrow>
      length (AList.update k v (local_cache s)) \<le> nat (max_local s)"
  proof -
    fix k v
    assume "\<not> max_local s \<le> int (length (local_cache s))"
    then have "Suc (length (local_cache s)) \<le> nat (max_local s)" by simp
    with length_update_le [of k v "local_cache s"]
    show "length (AList.update k v (local_cache s)) \<le> nat (max_local s)" by simp
  qed
  show ?thesis
    by (auto simp: get_def Let_def le_max_iff_disj evict insert
        split: option.splits sum.splits bool.splits redis_reply.splits)
qed


section \<open>Sizing\<close>

lemma float_literals:
  "round_double (6185 / 10000) = Inr float_0_6185" "round_double (1 / 1000) = Inr float_0_001"
  by code_simp+

lemma optimal_size_default: "optimal_size 1000000 float_0_001 = Inr (- 1616)"
  by code_simp

lemma optimal_hash_count_default: "optimal_hash_count (- 1616) 1000000 = Inr 0"
  by code_simp

lemma optimal_size_1: "optimal_size 1 float_0_001 = Inr 0"
  by code_simp

lemma optimal_hash_count_0_1: "optimal_hash_count 0 1 = Inr 0"
  by code_simp

lemma init_capacity_1: "init 1 float_0_001 = Inr (empty_cache 0 0 100)"
  by (simp add: init_def optimal_size_1 optimal_hash_count_0_1 empty_cache_def)

lemma standard_size_positive:
  assumes "0 < n" and "0 < p" and "p < 1"
  shows "0 < standard_size n p"
proof -
  from assms(2,3) have "ln p < 0" by simp
  with assms(1) have "0 < - real_of_int n * ln p" by (simp add: mult_pos_neg)
  moreover have "0 < (ln 2 :: real)\<^sup>2" by simp
  ultimately have "0 < - real_of_int n * ln p / (ln 2)\<^sup>2" by (rule divide_pos_pos)
  then show ?thesis by (simp add: standard_size_def)
qed

text \<open>
  Claim C1 (the sizing formulas). The claim says that the constructor computes
  \<open>m = \<lceil>- n ln p / (ln 2)\<^sup>2\<rceil>\<close> and \<open>k = round ((m / n) ln 2)\<close>, at least 1. The
  constructor calls \<^verbatim>\<open>hash\<close> where the formulas have the logarithm. With the default
  arguments, \<open>n = 1000000\<close> and \<open>p = 0.001\<close>, it computes the size \<open>- 1616\<close> and the
  hash count \<open>0\<close>, and building the bit array raises; the formulas give a positive size
  and a hash count of at least 1.
\<close>

theorem constructor_sizing_default:
  "optimal_size 1000000 float_0_001 = Inr (- 1616)
   \<and> optimal_hash_count (- 1616) 1000000 = Inr 0
   \<and> init 1000000 float_0_001 = Inl ValueError
   \<and> 0 < standard_size 1000000 (real_of_rat float_0_001)
   \<and> 1 \<le> standard_hash_count (standard_size 1000000 (real_of_rat float_0_001)) 1000000"
proof -
  have "0 < float_0_001" and "float_0_001 < 1"
    by (simp_all add: float_0_001_def zero_less_Fract_iff Fract_less_one_iff)
  then have "0 < real_of_rat float_0_001" and "real_of_rat float_0_001 < 1" by simp_all
  then have "0 < standard_size 1000000 (real_of_rat float_0_001)"
    by (intro standard_size_positive) simp_all
  moreover have "init 1000000 float_0_001 = Inl ValueError"
    by (simp add: init_def optimal_size_default optimal_hash_count_default)
  ultimately show ?thesis
    by (simp add: optimal_size_default optimal_hash_count_default standard_hash_count_def)
qed


subsection \<open>The filter the constructor builds\<close>

lemma hash_float_0_6185: "hash_float float_0_6185 = 1426163901198669824"
  by code_simp

lemma hash_fraction_nonneg:
  assumes "0 \<le> m"
  shows "0 \<le> hash_fraction m n"
proof -
  have nonneg: "\<And>y::int. 0 \<le> y mod hash_modulus" by (simp add: hash_modulus_def)
  have "\<And>y::int. y mod hash_modulus \<noteq> - 1"
  proof -
    fix y :: int
    from nonneg [of y] show "y mod hash_modulus \<noteq> - 1" by auto
  qed
  with assms nonneg show ?thesis
    by (simp add: hash_fraction_def Let_def hash_inf_def)
qed

lemma hash_float_nonneg:
  assumes "0 \<le> x"
  shows "0 \<le> hash_float x"
proof -
  obtain a b where q: "quotient_of x = (a, b)" by (cases "quotient_of x")
  then have "0 < b" and "x = of_int a / of_int b"
    by (simp_all add: quotient_of_denom_pos quotient_of_div)
  with assms have "0 \<le> a" by (simp add: zero_le_divide_iff)
  with q show ?thesis by (simp add: hash_float_def hash_fraction_nonneg)
qed

lemma pow2_pos: "0 < pow2 k"
  by (simp add: pow2_def zero_less_Fract_iff)

lemma round_half_even_nonpos:
  assumes "x \<le> 0"
  shows "round_half_even x \<le> 0"
proof (cases "x = 0")
  case True
  then show ?thesis by (simp add: round_half_even_def)
next
  case False
  with assms have "x < 0" by simp
  then have "\<lfloor>x\<rfloor> < 0" by (simp add: floor_less_iff)
  then show ?thesis by (simp add: round_half_even_def Let_def)
qed

lemma round_double_nonpos:
  assumes "x \<le> 0" and "round_double x = Inr r"
  shows "r \<le> 0"
proof (cases "x = 0")
  case True
  with assms(2) show ?thesis by (simp add: round_double_def)
next
  case False
  define e where "e = max (ilog2 x) (- 1022)"
  from assms(1) pow2_pos [of "52 - e"] have "x * pow2 (52 - e) \<le> 0"
    by (simp add: mult_le_0_iff)
  then have "round_half_even (x * pow2 (52 - e)) \<le> 0" by (rule round_half_even_nonpos)
  then have "of_int (round_half_even (x * pow2 (52 - e))) * pow2 (e - 52) \<le> 0"
    using pow2_pos [of "e - 52"] by (simp add: mult_le_0_iff)
  with assms(2) False show ?thesis
    by (simp add: round_double_def Let_def e_def split: if_splits)
qed

lemma py_int_nonpos: "x \<le> 0 \<Longrightarrow> py_int x \<le> 0"
  by (auto simp: py_int_def ceiling_le_iff)

lemma optimal_size_nonpos:
  assumes "0 \<le> n" and "0 \<le> p" and "optimal_size n p = Inr m"
  shows "m \<le> 0"
proof -
  let ?q = "rat_of_int (- (n * hash_float p)) / rat_of_int (hash_float float_0_6185)"
  from assms(3) obtain r where r: "round_double ?q = Inr r" and m: "m = py_int r"
    by (auto simp: optimal_size_def true_div_def split: sum.splits if_splits)
  from assms(1,2) have "0 \<le> n * hash_float p" by (simp add: hash_float_nonneg)
  then have "rat_of_int (- (n * hash_float p)) \<le> 0" by (simp only: of_int_le_0_iff)
  moreover have "0 < rat_of_int (hash_float float_0_6185)" by (simp add: hash_float_0_6185)
  ultimately have "?q \<le> 0" by (rule divide_nonpos_pos)
  then have "r \<le> 0" using r by (rule round_double_nonpos)
  with m show ?thesis by (simp add: py_int_nonpos)
qed

lemma might_exist_no_hashes: "hash_count s \<le> 0 \<Longrightarrow> might_exist s key = Inr True"
  by (simp add: might_exist_def get_hash_positions_def)

text \<open>
  For a positive capacity and a positive error rate the computed size is never positive.
  So whenever the constructor returns, the filter has no bits and no hash functions, and
  \<^verbatim>\<open>might_exist\<close> is true of every key: the filter built this way never keeps a lookup
  from Redis.
\<close>

theorem constructed_filter_never_filters:
  assumes "init cap p = Inr s" and "0 < cap" and "0 < p"
  shows "s = \<lparr>capacity = cap, size_bits = 0, hash_count = 0, bloom = [], local_cache = [],
              max_local = 100\<rparr>
         \<and> (\<forall>key. might_exist s key = Inr True)"
proof -
  from assms(1) obtain m k where m: "optimal_size cap p = Inr m"
    and k: "optimal_hash_count m cap = Inr k" and nonneg: "\<not> m < 0"
    and s: "s = \<lparr>capacity = cap, size_bits = m, hash_count = k,
                  bloom = replicate (nat m) False, local_cache = [], max_local = 100\<rparr>"
    by (auto simp: init_def split: sum.splits if_splits)
  from assms(2,3) m have "m \<le> 0" by (intro optimal_size_nonpos [of cap p]) simp_all
  with nonneg have m0: "m = 0" by simp
  from k assms(2) have k0: "k = 0"
    by (simp add: m0 optimal_hash_count_def true_div_def round_double_def py_int_def)
  from s m0 k0 have eq: "s = \<lparr>capacity = cap, size_bits = 0, hash_count = 0, bloom = [],
      local_cache = [], max_local = 100\<rparr>" by simp
  then have "hash_count s \<le> 0" by simp
  then have "\<forall>key. might_exist s key = Inr True" by (simp add: might_exist_no_hashes)
  with eq show ?thesis by simp
qed

text \<open>
  An instance: \<^verbatim>\<open>BloomCache(capacity=1)\<close>.
\<close>

theorem constructed_filter_never_filters_witness:
  "init 1 float_0_001 = Inr (empty_cache 0 0 100)
   \<and> empty_cache 0 0 100 =
       \<lparr>capacity = 1, size_bits = 0, hash_count = 0, bloom = [], local_cache = [],
        max_local = 100\<rparr>
   \<and> might_exist (empty_cache 0 0 100) (md5_hexdigest ''never-seen'') = Inr True"
proof -
  have p: "0 < float_0_001" by (simp add: float_0_001_def zero_less_Fract_iff)
  have c: "(0::int) < 1" by simp
  from constructed_filter_never_filters [OF init_capacity_1 c p] init_capacity_1
  show ?thesis by blast
qed


end
